theory Spec2Isabelle
  imports Complex_Main "HOL-Library.Word" "HOL-Library.Sublist"
begin

section \<open>JavaScript numbers\<close>

text \<open>
  The scorer computes with JavaScript numbers. They are modelled as the real numbers
  together with \<open>NaN\<close>: arithmetic on finite values is exact (rounding of doubles is not
  modelled), \<open>NaN\<close> is absorbing for every arithmetic operation and every comparison
  with \<open>NaN\<close> is false. The only divisions of the scorer whose divisor can be zero are
  \<open>sum / length\<close> and \<open>laplacianSum / count\<close>; there the dividend is an empty sum, so the
  quotient is \<open>0 / 0 = NaN\<close>. Division by zero is therefore \<open>NaN\<close> in the model
  (the infinities of JavaScript never arise from pixel data).
\<close>

datatype number = NaN | Num real

instantiation number :: "{plus, minus, times, inverse, ord}"
begin

fun plus_number :: "number \<Rightarrow> number \<Rightarrow> number" where
  "plus_number (Num a) (Num b) = Num (a + b)"
| "plus_number _ _ = NaN"

fun minus_number :: "number \<Rightarrow> number \<Rightarrow> number" where
  "minus_number (Num a) (Num b) = Num (a - b)"
| "minus_number _ _ = NaN"

fun times_number :: "number \<Rightarrow> number \<Rightarrow> number" where
  "times_number (Num a) (Num b) = Num (a * b)"
| "times_number _ _ = NaN"

fun divide_number :: "number \<Rightarrow> number \<Rightarrow> number" where
  "divide_number (Num a) (Num b) = (if b = 0 then NaN else Num (a / b))"
| "divide_number _ _ = NaN"

fun inverse_number :: "number \<Rightarrow> number" where
  "inverse_number (Num a) = (if a = 0 then NaN else Num (inverse a))"
| "inverse_number NaN = NaN"

fun less_number :: "number \<Rightarrow> number \<Rightarrow> bool" where
  "less_number (Num a) (Num b) = (a < b)"
| "less_number _ _ = False"

fun less_eq_number :: "number \<Rightarrow> number \<Rightarrow> bool" where
  "less_eq_number (Num a) (Num b) = (a \<le> b)"
| "less_eq_number _ _ = False"

instance ..

end

text \<open>\<open>Math.min\<close>, \<open>Math.max\<close>, \<open>Math.abs\<close>, \<open>Math.sqrt\<close> and \<open>Math.pow\<close> with a
  natural exponent: \<open>NaN\<close> if an argument is \<open>NaN\<close>, and the square root of a negative
  number is \<open>NaN\<close>.\<close>

fun Math_min :: "number \<Rightarrow> number \<Rightarrow> number" where
  "Math_min (Num a) (Num b) = Num (min a b)"
| "Math_min _ _ = NaN"

fun Math_max :: "number \<Rightarrow> number \<Rightarrow> number" where
  "Math_max (Num a) (Num b) = Num (max a b)"
| "Math_max _ _ = NaN"

fun Math_abs :: "number \<Rightarrow> number" where
  "Math_abs (Num a) = Num \<bar>a\<bar>"
| "Math_abs NaN = NaN"

fun Math_sqrt :: "number \<Rightarrow> number" where
  "Math_sqrt (Num a) = (if a < 0 then NaN else Num (sqrt a))"
| "Math_sqrt NaN = NaN"

fun Math_pow :: "number \<Rightarrow> nat \<Rightarrow> number" where
  "Math_pow (Num a) n = Num (a ^ n)"
| "Math_pow NaN n = NaN"

text \<open>The default of a constructor option, \<open>options.x || d\<close>: the default is taken when the
  option is absent and also when it is falsy, that is \<open>0\<close> or \<open>NaN\<close>.\<close>

fun or_default :: "number option \<Rightarrow> number \<Rightarrow> number" where
  "or_default None d = d"
| "or_default (Some NaN) d = d"
| "or_default (Some (Num a)) d = (if a = 0 then d else Num a)"

section \<open>The readability score\<close>

text \<open>
  \<open>DocumentReadabilityChecker.calculateReadabilityScore\<close>. The two object literals
  \<open>weights\<close> and \<open>scores\<close> are association lists in the order of their keys; reading a
  key that an object does not have gives \<open>undefined\<close>, which is \<open>NaN\<close> in arithmetic. The
  result is the \<open>reduce\<close> over \<open>Object.keys(weights)\<close>, starting from \<open>0\<close>.
\<close>

type_synonym obj = "(string \<times> number) list"

definition keys :: "obj \<Rightarrow> string list" where
  "keys ob = map fst ob"

definition get :: "obj \<Rightarrow> string \<Rightarrow> number" where
  "get ob k = (case map_of ob k of None \<Rightarrow> NaN | Some v \<Rightarrow> v)"

definition weights :: obj where
  "weights =
     [(''confidence'', Num 0.4), (''blur'', Num 0.3),
      (''contrast'', Num 0.2), (''wordCount'', Num 0.1)]"

definition scores :: "number \<Rightarrow> number \<Rightarrow> number \<Rightarrow> number \<Rightarrow> obj" where
  "scores confidenceScore blurScore contrast wordCount =
     [(''confidence'', confidenceScore),
      (''blur'', (Num 1 - blurScore) * Num 100),
      (''contrast'', contrast * Num 100),
      (''wordCount'', Math_min (wordCount / Num 10 * Num 100) (Num 100))]"

definition calculateReadabilityScore ::
  "number \<Rightarrow> number \<Rightarrow> number \<Rightarrow> number \<Rightarrow> number" where
  "calculateReadabilityScore confidenceScore blurScore contrast wordCount =
     foldl (\<lambda>score factor.
              score + get (scores confidenceScore blurScore contrast wordCount) factor
                      * get weights factor)
       (Num 0) (keys weights)"

section \<open>Pixel data and the external collaborators\<close>

text \<open>
  A \<open>Uint8Array\<close> is a list of bytes; a byte read as a number is its unsigned value.
  Reading a typed array outside its bounds gives \<open>undefined\<close>, which is \<open>NaN\<close> in
  arithmetic. Indices are integers, so that \<open>idx - 1\<close> and \<open>idx - width\<close> are what the
  source computes.
\<close>

type_synonym Uint8Array = "8 word list"

definition byte_num :: "8 word \<Rightarrow> number" where
  "byte_num v = Num (real (unat v))"

definition item :: "Uint8Array \<Rightarrow> int \<Rightarrow> number" where
  "item pixels i =
     (if 0 \<le> i \<and> i < int (length pixels) then byte_num (pixels ! nat i) else NaN)"

text \<open>\<open>arr.reduce((sum, value) => sum + value, 0)\<close> on a typed array and on an array of
  numbers.\<close>

definition reduce_sum :: "Uint8Array \<Rightarrow> number" where
  "reduce_sum arr = foldl (\<lambda>sum value. sum + byte_num value) (Num 0) arr"

definition reduce_sum_numbers :: "number list \<Rightarrow> number" where
  "reduce_sum_numbers arr = foldl (\<lambda>sum value. sum + value) (Num 0) arr"

text \<open>
  The image library \<open>sharp\<close> and the text recogniser are external. A call of theirs
  either throws an \<open>Error\<close> with a message or returns; what it returns is an input of the
  model. For an image that is the metadata (\<open>width\<close> and \<open>height\<close> may be undefined), the
  raw grayscale buffer, and the \<open>info\<close> of that buffer. Field names carry a prefix of
  their record, since the fields of an Isabelle record are global constants.
\<close>

datatype error = Error string

record metadata =
  md_width :: "nat option"
  md_height :: "nat option"
  md_format :: "string option"
  md_size :: "nat option"

record image =
  img_metadata :: metadata
  img_data :: Uint8Array
  info_width :: nat
  info_height :: nat

text \<open>A number in a template string, for the pixel counts that occur there.\<close>

definition digit_char :: "nat \<Rightarrow> char" where
  "digit_char d = ''0123456789'' ! d"

function string_of_nat :: "nat \<Rightarrow> string" where
  "string_of_nat n =
     (if n < 10 then [digit_char n] else string_of_nat (n div 10) @ [digit_char (n mod 10)])"
  by pat_completeness auto
termination
  by (relation "measure id") auto

declare string_of_nat.simps [simp del]

section \<open>The blur-check path: \<open>DocumentBlurDetector\<close>\<close>

record minSize =
  width :: nat
  height :: nat

record BlurDetectorOptions =
  opt_blurThreshold :: "number option"
  opt_minDocumentSize :: "minSize option"

record DocumentBlurDetector =
  blurThreshold :: number
  minDocumentSize :: minSize

definition new_DocumentBlurDetector :: "BlurDetectorOptions \<Rightarrow> DocumentBlurDetector" where
  "new_DocumentBlurDetector options =
     \<lparr> blurThreshold = or_default (opt_blurThreshold options) (Num 0.15),
       minDocumentSize =
         (case opt_minDocumentSize options of
            None \<Rightarrow> \<lparr> width = 800, height = 500 \<rparr>
          | Some s \<Rightarrow> s) \<rparr>"

text \<open>The detector that the route handler builds.\<close>

definition route_detector :: DocumentBlurDetector where
  "route_detector =
     new_DocumentBlurDetector
       \<lparr> opt_blurThreshold = Some (Num 0.15),
         opt_minDocumentSize = Some \<lparr> width = 400, height = 400 \<rparr> \<rparr>"

definition calculateVariance :: "Uint8Array \<Rightarrow> number" where
  "calculateVariance data =
     (let mean = reduce_sum data / Num (real (length data));
          squareDiffs = map (\<lambda>value. Math_pow (byte_num value - mean) 2) data;
          avgSquareDiff = reduce_sum_numbers squareDiffs / Num (real (length squareDiffs))
      in avgSquareDiff)"

record blurQuality =
  q_brightness :: number
  q_contrast :: number
  q_width :: nat
  q_height :: nat
  q_format :: "string option"
  q_size :: "nat option"

record blurResult =
  isBlurry :: bool
  blurScore :: number
  quality :: blurQuality
  threshold :: number
  recommendation :: string

text \<open>The \<open>try\<close> block of \<open>detectBlur\<close>: the check of the dimensions comes first and
  throws; the scores are computed after it.\<close>

definition resolution_message :: "minSize \<Rightarrow> string" where
  "resolution_message m =
     ''Image resolution too low. Minimum required: '' @ string_of_nat (width m)
       @ ''x'' @ string_of_nat (height m)"

definition detectBlur_try :: "DocumentBlurDetector \<Rightarrow> error + image \<Rightarrow> error + blurResult" where
  "detectBlur_try this sharp_result =
     (case sharp_result of
        Inl e \<Rightarrow> Inl e
      | Inr img \<Rightarrow>
          (case (md_width (img_metadata img), md_height (img_metadata img)) of
             (Some w, Some h) \<Rightarrow>
               if w = 0 \<or> h = 0 \<or> w < width (minDocumentSize this)
                  \<or> h < height (minDocumentSize this)
               then Inl (Error (resolution_message (minDocumentSize this)))
               else
                 (let pixelArray = img_data img;
                      variance = calculateVariance pixelArray;
                      normalizedVariance = variance / Num (255 * 255);
                      brightness = reduce_sum pixelArray / Num (real (length pixelArray));
                      contrast =
                        Math_sqrt
                          (foldl (\<lambda>sum value. sum + Math_pow (byte_num value - brightness) 2)
                             (Num 0) pixelArray
                           / Num (real (length pixelArray)));
                      isBlurry = normalizedVariance < blurThreshold this
                  in Inr \<lparr> isBlurry = isBlurry,
                           blurScore = normalizedVariance,
                           quality =
                             \<lparr> q_brightness = brightness / Num 255,
                               q_contrast = contrast / Num 255,
                               q_width = w, q_height = h,
                               q_format = md_format (img_metadata img),
                               q_size = md_size (img_metadata img) \<rparr>,
                           threshold = blurThreshold this,
                           recommendation =
                             (if isBlurry
                              then ''Image is too blurry, please provide a clearer image''
                              else ''Image quality is acceptable'') \<rparr>)
           | _ \<Rightarrow> Inl (Error (resolution_message (minDocumentSize this)))))"

text \<open>The \<open>catch\<close> of \<open>detectBlur\<close> wraps the message of whatever was thrown.\<close>

definition detectBlur :: "DocumentBlurDetector \<Rightarrow> error + image \<Rightarrow> error + blurResult" where
  "detectBlur this sharp_result =
     (case detectBlur_try this sharp_result of
        Inl (Error message) \<Rightarrow> Inl (Error (''Error analyzing image: '' @ message))
      | Inr r \<Rightarrow> Inr r)"

section \<open>The readability path: \<open>DocumentReadabilityChecker\<close>\<close>

record ReadabilityOptions =
  ro_blurThreshold :: "number option"
  ro_minConfidence :: "number option"
  ro_minTextLength :: "number option"

record DocumentReadabilityChecker =
  rc_blurThreshold :: number
  rc_minConfidence :: number
  rc_minTextLength :: number

definition new_DocumentReadabilityChecker ::
  "ReadabilityOptions \<Rightarrow> DocumentReadabilityChecker" where
  "new_DocumentReadabilityChecker options =
     \<lparr> rc_blurThreshold = or_default (ro_blurThreshold options) (Num 0.15),
       rc_minConfidence = or_default (ro_minConfidence options) (Num 60),
       rc_minTextLength = or_default (ro_minTextLength options) (Num 10) \<rparr>"

definition route_checker :: DocumentReadabilityChecker where
  "route_checker =
     new_DocumentReadabilityChecker
       \<lparr> ro_blurThreshold = Some (Num 0.15), ro_minConfidence = Some (Num 60),
         ro_minTextLength = Some (Num 10) \<rparr>"

text \<open>
  \<open>calculateBlurScore\<close>: the two nested \<open>for\<close> loops carry \<open>laplacianSum\<close> and \<open>count\<close>.
  The loop tests \<open>x < width - 1\<close> and \<open>y < height - 1\<close> are over the integers. The
  parameters \<open>width\<close> and \<open>height\<close> are written \<open>w\<close> and \<open>h\<close>.
\<close>

definition laplacian_body ::
  "Uint8Array \<Rightarrow> nat \<Rightarrow> nat \<Rightarrow> nat \<Rightarrow> number \<times> nat \<Rightarrow> number \<times> nat" where
  "laplacian_body pixels w y x acc =
     (let idx = int y * int w + int x;
          val = item pixels idx * Num 4
                - item pixels (idx - 1)
                - item pixels (idx + 1)
                - item pixels (idx - int w)
                - item pixels (idx + int w)
      in (fst acc + Math_abs val, snd acc + 1))"

function loop_x ::
  "Uint8Array \<Rightarrow> nat \<Rightarrow> nat \<Rightarrow> nat \<Rightarrow> number \<times> nat \<Rightarrow> number \<times> nat" where
  "loop_x pixels w y x acc =
     (if int x < int w - 1
      then loop_x pixels w y (x + 1) (laplacian_body pixels w y x acc)
      else acc)"
  by pat_completeness auto
termination
  by (relation "measure (\<lambda>(pixels, w, y, x, acc). w - x)") auto

function loop_y ::
  "Uint8Array \<Rightarrow> nat \<Rightarrow> nat \<Rightarrow> nat \<Rightarrow> number \<times> nat \<Rightarrow> number \<times> nat" where
  "loop_y pixels w h y acc =
     (if int y < int h - 1
      then loop_y pixels w h (y + 1) (loop_x pixels w y 1 acc)
      else acc)"
  by pat_completeness auto
termination
  by (relation "measure (\<lambda>(pixels, w, h, y, acc). h - y)") auto

declare loop_x.simps [simp del] loop_y.simps [simp del]

definition calculateBlurScore :: "Uint8Array \<Rightarrow> nat \<Rightarrow> nat \<Rightarrow> number" where
  "calculateBlurScore pixels w h =
     (let (laplacianSum, count) = loop_y pixels w h 1 (Num 0, 0);
          laplacianVariance = laplacianSum / Num (real count)
      in Math_max (Num 0) (Math_min (Num 1) (Num 1 - laplacianVariance / Num 255)))"

record qualityMetrics =
  qm_contrast :: number
  qm_blurScore :: number
  qm_brightness :: number
  qm_resolution :: nat

definition analyzeImageQuality :: "image \<Rightarrow> qualityMetrics" where
  "analyzeImageQuality img =
     (let pixels = img_data img;
          mean = reduce_sum pixels / Num (real (length pixels));
          variance =
            foldl (\<lambda>sum value. sum + Math_pow (byte_num value - mean) 2) (Num 0) pixels
            / Num (real (length pixels));
          contrast = Math_sqrt variance / Num 255;
          blurScore = calculateBlurScore pixels (info_width img) (info_height img)
      in \<lparr> qm_contrast = contrast, qm_blurScore = blurScore,
           qm_brightness = mean / Num 255,
           qm_resolution = info_width img * info_height img \<rparr>)"

text \<open>The messages of \<open>generateSuggestions\<close>, in the order in which the source tests for them.\<close>

definition msg_poor :: string where
  "msg_poor =
     ''Overall document quality is poor. Consider recapturing with better lighting and focus.''"

definition msg_improve :: string where
  "msg_improve =
     ''Document quality could be improved for better text recognition.''"

definition msg_blurry :: string where
  "msg_blurry =
     ''Document appears blurry. Try capturing a clearer image.''"

definition msg_contrast :: string where
  "msg_contrast =
     ''Low contrast detected. Ensure good lighting and clear background.''"

definition msg_brightness :: string where
  "msg_brightness =
     ''Suboptimal brightness. Adjust lighting conditions.''"

definition msg_confidence :: string where
  "msg_confidence =
     ''Text recognition confidence is low. Ensure text is clear and well-aligned.''"

text \<open>\<open>generateSuggestions\<close>: each \<open>push\<close> appends to the list built so far.\<close>

definition generateSuggestions ::
  "DocumentReadabilityChecker \<Rightarrow> number \<Rightarrow> qualityMetrics \<Rightarrow> number \<Rightarrow> string list" where
  "generateSuggestions this readabilityScore qualityMetrics confidenceScore =
     (let s0 = [];
          s1 = (if readabilityScore < Num 50
                then s0 @ [msg_poor]
                else if readabilityScore < Num 70
                then s0 @ [msg_improve]
                else s0);
          s2 = (if rc_blurThreshold this < qm_blurScore qualityMetrics
                then s1 @ [msg_blurry]
                else s1);
          s3 = (if qm_contrast qualityMetrics < Num 0.4
                then s2 @ [msg_contrast]
                else s2);
          s4 = (if qm_brightness qualityMetrics < Num 0.3
                   \<or> Num 0.8 < qm_brightness qualityMetrics
                then s3 @ [msg_brightness]
                else s3);
          s5 = (if confidenceScore < rc_minConfidence this
                then s4 @ [msg_confidence]
                else s4)
      in s5)"

text \<open>
  The words of the recognised text, \<open>ocrResult.split(/\s+/).filter(word => word.length > 0)\<close>.
  A string is a list of bytes here, and the white space is that of ASCII.
\<close>

definition is_space :: "char \<Rightarrow> bool" where
  "is_space c = (c \<in> set [CHR '' '', CHR 0x09, CHR 0x0A, CHR 0x0B, CHR 0x0C, CHR 0x0D])"

function split_space :: "string \<Rightarrow> string \<Rightarrow> string list" where
  "split_space cur [] = [cur]"
| "split_space cur (c # cs) =
     (if is_space c then cur # split_space [] (dropWhile is_space cs)
      else split_space (cur @ [c]) cs)"
  by pat_completeness auto
termination
  by (relation "measure (\<lambda>(cur, cs). length cs)")
     (auto simp: le_imp_less_Suc length_dropWhile_le)

definition words_of :: "string \<Rightarrow> string list" where
  "words_of ocrResult = filter (\<lambda>word. length word > 0) (split_space [] ocrResult)"

record resultMetadata =
  rm_width :: "nat option"
  rm_height :: "nat option"
  rm_format :: "string option"

record details =
  d_wordCount :: nat
  d_confidenceScore :: number
  d_imageQuality :: qualityMetrics
  d_metadata :: resultMetadata

record readabilityResult =
  isReadable :: bool
  readabilityScore :: number
  r_details :: details
  r_text :: string
  suggestions :: "string list"

text \<open>
  \<open>checkReadability\<close>. Its inputs are what the collaborators delivered: the preprocessed
  image, the recognised text, and the confidence that \<open>calculateOCRConfidence\<close> read off a
  second recognition. Nothing in it looks at the size of the image.
\<close>

definition checkReadability_try ::
  "DocumentReadabilityChecker \<Rightarrow> error + image \<Rightarrow> error + string \<Rightarrow> error + number
     \<Rightarrow> error + readabilityResult" where
  "checkReadability_try this sharp_result ocr confidence =
     (case sharp_result of
        Inl e \<Rightarrow> Inl e
      | Inr processedImage \<Rightarrow>
          (let md = img_metadata processedImage;
               qualityMetrics = analyzeImageQuality processedImage
           in case ocr of
                Inl e \<Rightarrow> Inl e
              | Inr ocrResult \<Rightarrow>
                  (let ws = words_of ocrResult
                   in case confidence of
                        Inl e \<Rightarrow> Inl e
                      | Inr confidenceScore \<Rightarrow>
                          (let score =
                                 calculateReadabilityScore confidenceScore
                                   (qm_blurScore qualityMetrics) (qm_contrast qualityMetrics)
                                   (Num (real (length ws)))
                           in Inr \<lparr> isReadable = Num 70 \<le> score,
                                    readabilityScore = score,
                                    r_details =
                                      \<lparr> d_wordCount = length ws,
                                        d_confidenceScore = confidenceScore,
                                        d_imageQuality = qualityMetrics,
                                        d_metadata =
                                          \<lparr> rm_width = md_width md, rm_height = md_height md,
                                            rm_format = md_format md \<rparr> \<rparr>,
                                    r_text = ocrResult,
                                    suggestions =
                                      generateSuggestions this score qualityMetrics
                                        confidenceScore \<rparr>))))"

definition checkReadability ::
  "DocumentReadabilityChecker \<Rightarrow> error + image \<Rightarrow> error + string \<Rightarrow> error + number
     \<Rightarrow> error + readabilityResult" where
  "checkReadability this sharp_result ocr confidence =
     (case checkReadability_try this sharp_result ocr confidence of
        Inl (Error message) \<Rightarrow>
          Inl (Error (''Failed to analyze document readability: '' @ message))
      | Inr r \<Rightarrow> Inr r)"

section \<open>Reference notions and fixtures\<close>

text \<open>
  The notions in which the properties are stated: the intensities of a pixel array as
  real numbers, their mean and population variance, and the discrete Laplacian
  \<open>4 * center - left - right - top - bottom\<close> at column \<open>x\<close> of row \<open>y\<close> of an array
  with rows of \<open>w\<close> pixels, summed in absolute value over the interior.
\<close>

definition intensities :: "Uint8Array \<Rightarrow> real list" where
  "intensities data = map (\<lambda>v. real (unat v)) data"

definition mean_of :: "real list \<Rightarrow> real" where
  "mean_of xs = sum_list xs / real (length xs)"

definition population_variance :: "real list \<Rightarrow> real" where
  "population_variance xs = (\<Sum>x\<leftarrow>xs. (x - mean_of xs) ^ 2) / real (length xs)"

definition px :: "Uint8Array \<Rightarrow> nat \<Rightarrow> real" where
  "px pixels i = real (unat (pixels ! i))"

definition laplacian :: "Uint8Array \<Rightarrow> nat \<Rightarrow> nat \<Rightarrow> nat \<Rightarrow> real" where
  "laplacian pixels w y x =
     4 * px pixels (y * w + x) - px pixels (y * w + x - 1) - px pixels (y * w + x + 1)
       - px pixels (y * w + x - w) - px pixels (y * w + x + w)"

definition edge_energy :: "Uint8Array \<Rightarrow> nat \<Rightarrow> nat \<Rightarrow> real" where
  "edge_energy pixels w h = (\<Sum>y = 1..<h - 1. \<Sum>x = 1..<w - 1. \<bar>laplacian pixels w y x\<bar>)"

text \<open>A score that is a number between 0 and 1; \<open>NaN\<close> is not.\<close>

definition in_unit_interval :: "number \<Rightarrow> bool" where
  "in_unit_interval n = (Num 0 \<le> n \<and> n \<le> Num 1)"

text \<open>
  Fixtures: the checkerboard whose pixel in column \<open>x\<close> of row \<open>y\<close> is black when \<open>x + y\<close>
  is even and white otherwise, an image of one intensity, and the images that \<open>sharp\<close>
  delivers for them.
\<close>

definition checkerboard :: "nat \<Rightarrow> nat \<Rightarrow> Uint8Array" where
  "checkerboard w h = map (\<lambda>i. if even (i mod w + i div w) then 0 else 255) [0..<w * h]"

definition uniform :: "nat \<Rightarrow> nat \<Rightarrow> 8 word \<Rightarrow> Uint8Array" where
  "uniform w h v = replicate (w * h) v"

definition image_of :: "nat \<Rightarrow> nat \<Rightarrow> Uint8Array \<Rightarrow> image" where
  "image_of w h pixels =
     \<lparr> img_metadata =
         \<lparr> md_width = Some w, md_height = Some h, md_format = Some ''png'',
           md_size = None \<rparr>,
       img_data = pixels, info_width = w, info_height = h \<rparr>"

text \<open>A detector with the default threshold that accepts every image of at least 2 by 1
  pixels.\<close>

definition small_detector :: DocumentBlurDetector where
  "small_detector =
     new_DocumentBlurDetector
       \<lparr> opt_blurThreshold = None, opt_minDocumentSize = Some \<lparr> width = 2, height = 1 \<rparr> \<rparr>"

section \<open>Properties of the readability score\<close>

lemma calculateReadabilityScore_unfold:
  "calculateReadabilityScore c b k w =
     Num 0 + c * Num 0.4 + ((Num 1 - b) * Num 100) * Num 0.3 + (k * Num 100) * Num 0.2
       + Math_min (w / Num 10 * Num 100) (Num 100) * Num 0.1"
  by (simp add: calculateReadabilityScore_def keys_def get_def weights_def scores_def)

lemma calculateReadabilityScore_Num:
  "calculateReadabilityScore (Num c) (Num b) (Num k) (Num w) =
     Num (0.4 * c + 0.3 * ((1 - b) * 100) + 0.2 * (k * 100) + 0.1 * min (w / 10 * 100) 100)"
  by (simp add: calculateReadabilityScore_unfold)

lemma number_mult_commute: "(a :: number) * b = b * a"
  by (cases a; cases b) simp_all

lemma number_zero_add: "Num 0 + a = a"
  by (cases a) simp_all

text \<open>
  C1. For all inputs, \<open>calculateReadabilityScore\<close> is the weighted sum with the weights
  0.4, 0.3, 0.2 and 0.1 of the sub-scores \<open>confidenceScore\<close>, \<open>(1 - blurScore) * 100\<close>,
  \<open>contrast * 100\<close> and \<open>min (wordCount / 10 * 100, 100)\<close>: as an identity of JavaScript
  numbers for every input, and as the real number it denotes for inputs that are not
  \<open>NaN\<close>.
\<close>

theorem C1_weighted_sum:
  "calculateReadabilityScore c b k w =
     Num 0.4 * c + Num 0.3 * ((Num 1 - b) * Num 100) + Num 0.2 * (k * Num 100)
       + Num 0.1 * Math_min (w / Num 10 * Num 100) (Num 100)
   \<and> calculateReadabilityScore (Num c') (Num b') (Num k') (Num w') =
     Num (0.4 * c' + 0.3 * ((1 - b') * 100) + 0.2 * (k' * 100)
          + 0.1 * min (w' / 10 * 100) 100)"
  by (simp add: calculateReadabilityScore_unfold calculateReadabilityScore_Num
      number_zero_add number_mult_commute)


text \<open>
  C3, as stated, fails: the score falls when \<open>blurScore\<close> rises from 0 to 1 with the
  other three inputs fixed, since the blur term is \<open>(1 - blurScore) * 100\<close>.
\<close>

theorem C3_blurScore_counterexample:
  "(0 :: real) \<le> 1 \<and>
   \<not> calculateReadabilityScore (Num 90) (Num 0) (Num 0.5) (Num 50)
       \<le> calculateReadabilityScore (Num 90) (Num 1) (Num 0.5) (Num 50)"
  by (simp add: calculateReadabilityScore_Num)

text \<open>
  C3, amended. With the other three inputs fixed, \<open>calculateReadabilityScore\<close> is
  monotonically non-decreasing in \<open>confidenceScore\<close>, in \<open>contrast\<close> and in \<open>wordCount\<close>,
  and monotonically non-increasing in \<open>blurScore\<close>.
\<close>

theorem C3_monotone:
  "(c1 \<le> c2 \<longrightarrow> calculateReadabilityScore (Num c1) (Num b) (Num k) (Num w)
                 \<le> calculateReadabilityScore (Num c2) (Num b) (Num k) (Num w))
 \<and> (k1 \<le> k2 \<longrightarrow> calculateReadabilityScore (Num c) (Num b) (Num k1) (Num w)
                 \<le> calculateReadabilityScore (Num c) (Num b) (Num k2) (Num w))
 \<and> (w1 \<le> w2 \<longrightarrow> calculateReadabilityScore (Num c) (Num b) (Num k) (Num w1)
                 \<le> calculateReadabilityScore (Num c) (Num b) (Num k) (Num w2))
 \<and> (b1 \<le> b2 \<longrightarrow> calculateReadabilityScore (Num c) (Num b2) (Num k) (Num w)
                 \<le> calculateReadabilityScore (Num c) (Num b1) (Num k) (Num w))"
  by (auto simp add: calculateReadabilityScore_Num min_def)

text \<open>C3, an instance of each of the four inequalities.\<close>

theorem C3_monotone_witness:
  "(80 :: real) \<le> 90
   \<and> calculateReadabilityScore (Num 80) (Num 0.2) (Num 0.5) (Num 5)
       \<le> calculateReadabilityScore (Num 90) (Num 0.2) (Num 0.5) (Num 5)
   \<and> (0.3 :: real) \<le> 0.5
   \<and> calculateReadabilityScore (Num 80) (Num 0.2) (Num 0.3) (Num 5)
       \<le> calculateReadabilityScore (Num 80) (Num 0.2) (Num 0.5) (Num 5)
   \<and> (5 :: real) \<le> 50
   \<and> calculateReadabilityScore (Num 80) (Num 0.2) (Num 0.5) (Num 5)
       \<le> calculateReadabilityScore (Num 80) (Num 0.2) (Num 0.5) (Num 50)
   \<and> (0.2 :: real) \<le> 0.7
   \<and> calculateReadabilityScore (Num 80) (Num 0.7) (Num 0.5) (Num 5)
       \<le> calculateReadabilityScore (Num 80) (Num 0.2) (Num 0.5) (Num 5)"
  using C3_monotone [of 80 90 "0.2" "0.5" 5 "0.3" "0.5" 80 5 50 "0.2" "0.7"]
  by simp

section \<open>The suggestions\<close>

lemma subseq_generate:
  "subseq ((if a then [p] else if b then [q] else []) @ (if c then [r] else [])
           @ (if d then [s] else []) @ (if e then [t] else []) @ (if f then [u] else []))
     [p, q, r, s, t, u]"
  by (auto simp add: subseq_Cons2_iff)

text \<open>
  C9. \<open>generateSuggestions\<close> tests its rules in a fixed order: a score below 50 gives
  the poor-quality message, otherwise a score below 70 gives the could-be-improved
  message; then a blur score above the threshold, a contrast below 0.4, a brightness
  below 0.3 or above 0.8, and a confidence below the minimum each append their message.
  The result is therefore a subsequence of the six messages in that order, and it is
  empty when no condition holds.
\<close>

theorem C9_suggestions:
  "generateSuggestions this rs qm conf =
     (if rs < Num 50 then [msg_poor] else if rs < Num 70 then [msg_improve] else [])
     @ (if rc_blurThreshold this < qm_blurScore qm then [msg_blurry] else [])
     @ (if qm_contrast qm < Num 0.4 then [msg_contrast] else [])
     @ (if qm_brightness qm < Num 0.3 \<or> Num 0.8 < qm_brightness qm
        then [msg_brightness] else [])
     @ (if conf < rc_minConfidence this then [msg_confidence] else [])
   \<and> subseq (generateSuggestions this rs qm conf)
        [msg_poor, msg_improve, msg_blurry, msg_contrast, msg_brightness, msg_confidence]
   \<and> (\<not> rs < Num 50 \<and> \<not> rs < Num 70 \<and> \<not> rc_blurThreshold this < qm_blurScore qm
        \<and> \<not> qm_contrast qm < Num 0.4
        \<and> \<not> (qm_brightness qm < Num 0.3 \<or> Num 0.8 < qm_brightness qm)
        \<and> \<not> conf < rc_minConfidence this
      \<longrightarrow> generateSuggestions this rs qm conf = [])"
proof -
  have eq: "generateSuggestions this rs qm conf =
     (if rs < Num 50 then [msg_poor] else if rs < Num 70 then [msg_improve] else [])
     @ (if rc_blurThreshold this < qm_blurScore qm then [msg_blurry] else [])
     @ (if qm_contrast qm < Num 0.4 then [msg_contrast] else [])
     @ (if qm_brightness qm < Num 0.3 \<or> Num 0.8 < qm_brightness qm
        then [msg_brightness] else [])
     @ (if conf < rc_minConfidence this then [msg_confidence] else [])"
    by (simp add: generateSuggestions_def Let_def)
  show ?thesis
    unfolding eq by (intro conjI refl subseq_generate) simp
qed

text \<open>C9, on a good scan (no message) and on a poor one (four messages, in order).\<close>

theorem C9_suggestions_witness:
  "(\<not> Num 86 < Num 50 \<and> \<not> Num 86 < Num 70
    \<and> \<not> rc_blurThreshold route_checker < Num 0
    \<and> \<not> Num 0.5 < Num 0.4 \<and> \<not> (Num 0.5 < Num 0.3 \<or> Num 0.8 < Num 0.5)
    \<and> \<not> Num 90 < rc_minConfidence route_checker)
   \<and> generateSuggestions route_checker (Num 86)
         \<lparr> qm_contrast = Num 0.5, qm_blurScore = Num 0, qm_brightness = Num 0.5,
           qm_resolution = 160000 \<rparr> (Num 90) = []
   \<and> generateSuggestions route_checker (Num 40)
         \<lparr> qm_contrast = Num 0.1, qm_blurScore = Num 0.9, qm_brightness = Num 0.5,
           qm_resolution = 160000 \<rparr> (Num 30) = [msg_poor, msg_blurry, msg_contrast, msg_confidence]"
  using C9_suggestions [of route_checker "Num 86"
      "\<lparr> qm_contrast = Num 0.5, qm_blurScore = Num 0, qm_brightness = Num 0.5,
         qm_resolution = 160000 \<rparr>" "Num 90"]
    C9_suggestions [of route_checker "Num 40"
      "\<lparr> qm_contrast = Num 0.1, qm_blurScore = Num 0.9, qm_brightness = Num 0.5,
         qm_resolution = 160000 \<rparr>" "Num 30"]
  by (simp add: route_checker_def new_DocumentReadabilityChecker_def)

section \<open>Sums over a pixel array\<close>

lemma foldl_byte_sum:
  "foldl (\<lambda>sum value. sum + byte_num value) (Num a) data = Num (a + sum_list (intensities data))"
  by (induction data arbitrary: a) (simp_all add: intensities_def byte_num_def add.assoc)

lemma reduce_sum_Num: "reduce_sum data = Num (sum_list (intensities data))"
  by (simp add: reduce_sum_def foldl_byte_sum)

lemma foldl_square_sum:
  "foldl (\<lambda>sum value. sum + Math_pow (byte_num value - Num m) 2) (Num a) data
     = Num (a + (\<Sum>x\<leftarrow>intensities data. (x - m) ^ 2))"
  by (induction data arbitrary: a) (simp_all add: intensities_def byte_num_def add.assoc)

lemma foldl_numbers_sum:
  "foldl (\<lambda>sum value. sum + value) (Num a) (map Num xs) = Num (a + sum_list xs)"
  by (induction xs arbitrary: a) (simp_all add: add.assoc)

lemma squareDiffs_Num:
  "map (\<lambda>value. Math_pow (byte_num value - Num m) 2) data
     = map Num (map (\<lambda>x. (x - m) ^ 2) (intensities data))"
  by (simp add: intensities_def byte_num_def)

lemma mean_Num:
  "data \<noteq> [] \<Longrightarrow>
   reduce_sum data / Num (real (length data)) = Num (mean_of (intensities data))"
  by (simp add: reduce_sum_Num mean_of_def intensities_def)

lemma calculateVariance_Num:
  assumes "data \<noteq> []"
  shows "calculateVariance data = Num (population_variance (intensities data))"
proof -
  let ?m = "mean_of (intensities data)"
  have len: "length (intensities data) = length data"
    by (simp add: intensities_def)
  have nz: "real (length data) \<noteq> 0" using assms by simp
  have "calculateVariance data =
          reduce_sum_numbers (map Num (map (\<lambda>x. (x - ?m) ^ 2) (intensities data)))
          / Num (real (length data))"
    by (simp add: calculateVariance_def Let_def mean_Num [OF assms] squareDiffs_Num len)
  also have "\<dots> = Num ((\<Sum>x\<leftarrow>intensities data. (x - ?m) ^ 2) / real (length data))"
    using nz by (simp only: reduce_sum_numbers_def foldl_numbers_sum) simp
  finally show ?thesis by (simp add: population_variance_def len)
qed

lemma calculateVariance_empty: "calculateVariance [] = NaN"
  by (simp add: calculateVariance_def reduce_sum_def reduce_sum_numbers_def)


section \<open>The variance of bounded intensities\<close>

lemma sum_sq_expand:
  fixes xs :: "real list"
  shows "(\<Sum>x\<leftarrow>xs. (x - m) ^ 2) = (\<Sum>x\<leftarrow>xs. x ^ 2) - 2 * m * sum_list xs + real (length xs) * m ^ 2"
  by (induction xs) (simp_all add: power2_eq_square algebra_simps)

lemma sum_sq_le:
  fixes xs :: "real list"
  assumes "\<forall>x\<in>set xs. 0 \<le> x \<and> x \<le> M"
  shows "(\<Sum>x\<leftarrow>xs. x ^ 2) \<le> M * sum_list xs"
  using assms
proof (induction xs)
  case Nil
  then show ?case by simp
next
  case (Cons a xs)
  then have "a ^ 2 \<le> M * a" 
    by (simp add: power2_eq_square mult_right_mono)
  with Cons show ?case by (simp add: algebra_simps)
qed

lemma population_variance_nonneg: "0 \<le> population_variance xs"
  unfolding population_variance_def
  by (intro divide_nonneg_nonneg sum_list_nonneg) auto

lemma population_variance_le:
  assumes "xs \<noteq> []" and "\<forall>x\<in>set xs. 0 \<le> x \<and> x \<le> M"
  shows "population_variance xs \<le> M ^ 2 / 4"
proof -
  define n where "n = real (length xs)"
  define m where "m = mean_of xs"
  have n: "0 < n" using assms(1) by (simp add: n_def)
  have s: "sum_list xs = n * m" using n by (simp add: m_def mean_of_def n_def)
  have "(\<Sum>x\<leftarrow>xs. (x - m) ^ 2) = (\<Sum>x\<leftarrow>xs. x ^ 2) - 2 * m * (n * m) + n * m ^ 2"
    by (simp add: sum_sq_expand s n_def)
  also have "\<dots> \<le> M * (n * m) - 2 * m * (n * m) + n * m ^ 2"
    using sum_sq_le [OF assms(2)] by (simp add: s)
  also have "\<dots> = n * (m * (M - m))"
    by (simp add: power2_eq_square algebra_simps)
  also have "\<dots> \<le> n * (M ^ 2 / 4)"
  proof -
    have "M ^ 2 / 4 - m * (M - m) = (m - M / 2) ^ 2"
      by (simp add: power2_eq_square field_simps)
    moreover have "0 \<le> (m - M / 2) ^ 2" by simp
    ultimately have le: "m * (M - m) \<le> M ^ 2 / 4" by linarith
    from n have "0 \<le> n" by simp
    from mult_left_mono [OF le this] show ?thesis .
  qed
  finally have "(\<Sum>x\<leftarrow>xs. (x - m) ^ 2) / n \<le> M ^ 2 / 4"
    using n by (simp add: divide_le_eq mult.commute)
  then show ?thesis by (simp add: population_variance_def m_def n_def)
qed

lemma byte_le_255: "real (unat (v :: 8 word)) \<le> 255"
proof -
  have "unat v < 2 ^ LENGTH(8)" by (rule unsigned_less)
  then have "unat v \<le> 255" by simp
  then have "real (unat v) \<le> real 255" by (rule of_nat_mono)
  then show ?thesis by (simp only: of_nat_numeral)
qed

lemma intensities_range: "\<forall>x\<in>set (intensities data). 0 \<le> x \<and> x \<le> 255"
  using byte_le_255 by (auto simp add: intensities_def simp del: of_nat_unat)



section \<open>The loops of the Laplacian estimator\<close>

lemma item_in_range:
  "i < length pixels \<Longrightarrow> item pixels (int i) = Num (px pixels i)"
  by (simp add: item_def px_def byte_num_def)

lemma laplacian_body_Num:
  assumes "1 \<le> x" "1 \<le> y" "x + 1 < w" "(y + 1) * w + x < length pixels"
  shows "laplacian_body pixels w y x (Num s, c) = (Num (s + \<bar>laplacian pixels w y x\<bar>), c + 1)"
proof -
  have w: "w \<le> y * w + x" using assms(2) by (simp add: trans_le_add1)
  have i0: "int y * int w + int x = int (y * w + x)" by simp
  have i1: "int y * int w + int x - 1 = int (y * w + x - 1)" using assms(1) by simp
  have i2: "int y * int w + int x + 1 = int (y * w + x + 1)" by simp
  have i3: "int y * int w + int x - int w = int (y * w + x - w)"
  proof -
    have "int (y * w + x - w) = int (y * w + x) - int w" using w by (rule of_nat_diff)
    then show ?thesis by simp
  qed
  have i4: "int y * int w + int x + int w = int (y * w + x + w)" by simp
  have r: "y * w + x < length pixels" "y * w + x - 1 < length pixels"
    "y * w + x + 1 < length pixels" "y * w + x - w < length pixels"
    "y * w + x + w < length pixels"
    using assms(3,4) by simp_all
  show ?thesis
    unfolding laplacian_body_def Let_def
    apply (simp only: i1 i2 i3 i4)
    apply (simp only: i0 item_in_range r fst_conv snd_conv)
    apply (simp add: laplacian_def)
    done
qed

lemma loop_x_Num:
  assumes "1 \<le> x" "1 \<le> y" "(y + 2) * w \<le> length pixels"
  shows "loop_x pixels w y x (Num s, c) =
           (Num (s + (\<Sum>x' = x..<w - 1. \<bar>laplacian pixels w y x'\<bar>)), c + (w - 1 - x))"
  using assms(1)
proof (induction "w - x" arbitrary: x s c)
  case 0
  then have "\<not> int x < int w - 1" by simp
  then have "loop_x pixels w y x (Num s, c) = (Num s, c)"
    by (subst loop_x.simps) simp
  moreover have "{x..<w - 1} = {}" using 0 by simp
  moreover have "w - 1 - x = 0" using 0 by simp
  ultimately show ?case by simp
next
  case (Suc n)
  show ?case
  proof (cases "x + 1 < w")
    case True
    then have c: "int x < int w - 1" by simp
    have "(y + 1) * w + x < (y + 2) * w" using True by simp
    then have rng: "(y + 1) * w + x < length pixels" using assms(3) by simp
    have n: "n = w - (x + 1)" using Suc.hyps(2) by simp
    have "loop_x pixels w y x (Num s, c) =
            loop_x pixels w y (x + 1) (laplacian_body pixels w y x (Num s, c))"
      using c by (subst loop_x.simps) simp
    also have "\<dots> = loop_x pixels w y (x + 1) (Num (s + \<bar>laplacian pixels w y x\<bar>), c + 1)"
      by (simp only: laplacian_body_Num [OF Suc.prems assms(2) True rng])
    also have "\<dots> = (Num (s + \<bar>laplacian pixels w y x\<bar>
                          + (\<Sum>x' = x + 1..<w - 1. \<bar>laplacian pixels w y x'\<bar>)),
                     c + 1 + (w - 1 - (x + 1)))"
      by (rule Suc.hyps(1) [OF n]) simp
    also have "\<dots> = (Num (s + (\<Sum>x' = x..<w - 1. \<bar>laplacian pixels w y x'\<bar>)), c + (w - 1 - x))"
    proof -
      have "x < w - 1" using True by simp
      then have "(\<Sum>x' = x..<w - 1. \<bar>laplacian pixels w y x'\<bar>) =
                 \<bar>laplacian pixels w y x\<bar> + (\<Sum>x' = x + 1..<w - 1. \<bar>laplacian pixels w y x'\<bar>)"
        by (simp add: sum.atLeast_Suc_lessThan)
      moreover have "c + 1 + (w - 1 - (x + 1)) = c + (w - 1 - x)" using True by simp
      ultimately show ?thesis by simp
    qed
    finally show ?thesis .
  next
    case False
    then have "\<not> int x < int w - 1" by simp
    then have "loop_x pixels w y x (Num s, c) = (Num s, c)"
      by (subst loop_x.simps) simp
    moreover have "{x..<w - 1} = {}" using False by simp
    moreover have "w - 1 - x = 0" using False by simp
    ultimately show ?thesis by simp
  qed
qed

lemma loop_y_Num:
  assumes "1 \<le> y" "w * h \<le> length pixels"
  shows "loop_y pixels w h y (Num s, c) =
           (Num (s + (\<Sum>y' = y..<h - 1. \<Sum>x = 1..<w - 1. \<bar>laplacian pixels w y' x\<bar>)),
            c + (h - 1 - y) * (w - 2))"
  using assms(1)
proof (induction "h - y" arbitrary: y s c)
  case 0
  then have "\<not> int y < int h - 1" by simp
  then have "loop_y pixels w h y (Num s, c) = (Num s, c)"
    by (subst loop_y.simps) simp
  moreover have "{y..<h - 1} = {}" using 0 by simp
  moreover have "h - 1 - y = 0" using 0 by simp
  ultimately show ?case by simp
next
  case (Suc n)
  show ?case
  proof (cases "y + 1 < h")
    case True
    then have c: "int y < int h - 1" by simp
    have "(y + 2) * w \<le> h * w" using True by (intro mult_le_mono1) simp
    then have rng: "(y + 2) * w \<le> length pixels" using assms(2) by (simp add: mult.commute)
    have n: "n = h - (y + 1)" using Suc.hyps(2) by simp
    let ?row = "\<lambda>y'. \<Sum>x = 1..<w - 1. \<bar>laplacian pixels w y' x\<bar>"
    have "loop_y pixels w h y (Num s, c) =
            loop_y pixels w h (y + 1) (loop_x pixels w y 1 (Num s, c))"
      using c by (subst loop_y.simps) simp
    also have "\<dots> = loop_y pixels w h (y + 1) (Num (s + ?row y), c + (w - 1 - 1))"
      by (simp only: loop_x_Num [OF le_refl Suc.prems rng])
    also have "\<dots> = (Num (s + ?row y + (\<Sum>y' = y + 1..<h - 1. ?row y')),
                     c + (w - 1 - 1) + (h - 1 - (y + 1)) * (w - 2))"
      by (rule Suc.hyps(1) [OF n]) simp
    also have "\<dots> = (Num (s + (\<Sum>y' = y..<h - 1. ?row y')), c + (h - 1 - y) * (w - 2))"
    proof -
      have "y < h - 1" using True by simp
      then have "(\<Sum>y' = y..<h - 1. ?row y') = ?row y + (\<Sum>y' = y + 1..<h - 1. ?row y')"
        by (simp add: sum.atLeast_Suc_lessThan)
      moreover have "h - 1 - y = Suc (h - 1 - (y + 1))" using True by simp
      then have "c + (w - 1 - 1) + (h - 1 - (y + 1)) * (w - 2) = c + (h - 1 - y) * (w - 2)"
        by simp
      ultimately show ?thesis by simp
    qed
    finally show ?thesis .
  next
    case False
    then have "\<not> int y < int h - 1" by simp
    then have "loop_y pixels w h y (Num s, c) = (Num s, c)"
      by (subst loop_y.simps) simp
    moreover have "{y..<h - 1} = {}" using False by simp
    moreover have "h - 1 - y = 0" using False by simp
    ultimately show ?thesis by simp
  qed
qed

lemma loops_Num:
  assumes "w * h \<le> length pixels"
  shows "loop_y pixels w h 1 (Num 0, 0) = (Num (edge_energy pixels w h), (h - 2) * (w - 2))"
  using loop_y_Num [OF le_refl assms, of 0 0]
  by (simp add: edge_energy_def numeral_2_eq_2)

lemma calculateBlurScore_Num:
  assumes "3 \<le> w" "3 \<le> h" "w * h \<le> length pixels"
  shows "calculateBlurScore pixels w h =
           Num (max 0 (min 1 (1 - edge_energy pixels w h / real ((w - 2) * (h - 2)) / 255)))"
proof -
  have "(h - 2) * (w - 2) \<noteq> 0" using assms(1,2) by simp
  then show ?thesis
    unfolding calculateBlurScore_def loops_Num [OF assms(3)]
    by (simp add: mult.commute)
qed

lemma loop_x_skip: "w \<le> 2 \<Longrightarrow> loop_x pixels w y (Suc 0) acc = acc"
  by (subst loop_x.simps) simp

lemma loop_y_skip_w: "w \<le> 2 \<Longrightarrow> loop_y pixels w h y acc = acc"
proof (induction "h - y" arbitrary: y)
  case 0
  then show ?case by (subst loop_y.simps) simp
next
  case (Suc n)
  then have "n = h - (y + 1)" by simp
  from Suc.hyps(1) [OF this Suc.prems] show ?case
    by (subst loop_y.simps) (simp add: loop_x_skip [OF Suc.prems])
qed

lemma loop_y_skip_h: "h \<le> 2 \<Longrightarrow> loop_y pixels w h 1 acc = acc"
  by (subst loop_y.simps) simp

lemma calculateBlurScore_NaN:
  assumes "w \<le> 2 \<or> h \<le> 2"
  shows "calculateBlurScore pixels w h = NaN"
proof -
  have "loop_y pixels w h 1 (Num 0, 0) = (Num 0, 0)"
    using assms loop_y_skip_w loop_y_skip_h by blast
  then show ?thesis by (simp add: calculateBlurScore_def)
qed



section \<open>The checkerboard\<close>

lemma index_in_range: "x < w \<Longrightarrow> y < h \<Longrightarrow> y * w + x < w * (h :: nat)"
proof -
  assume a: "x < w" "y < h"
  then have "y * w + x < y * w + w" by simp
  also have "\<dots> = (y + 1) * w" by simp
  also have "\<dots> \<le> h * w" using a(2) by (intro mult_le_mono1) simp
  finally show ?thesis by (simp add: mult.commute)
qed

lemma px_checkerboard:
  assumes "x < w" "y < h"
  shows "px (checkerboard w h) (y * w + x) = (if even (x + y) then 0 else 255)"
proof -
  have "y * w + x < w * h" using assms by (rule index_in_range)
  moreover have "(y * w + x) mod w = x" "(y * w + x) div w = y" using assms(1) by simp_all
  ultimately show ?thesis by (simp add: px_def checkerboard_def)
qed

lemma laplacian_checkerboard:
  assumes "1 \<le> x" "x + 1 < w" "1 \<le> y" "y + 1 < h"
  shows "\<bar>laplacian (checkerboard w h) w y x\<bar> = 1020"
proof -
  obtain x' y' where x: "x = Suc x'" and y: "y = Suc y'"
    using assms(1,3) by (metis One_nat_def Suc_le_D)
  have e1: "y * w + x - 1 = y * w + x'" using x by simp
  have e2: "y * w + x + 1 = y * w + Suc x" by simp
  have e3: "y * w + x - w = y' * w + x" using y by simp
  have e4: "y * w + x + w = Suc y * w + x" by simp
  have "px (checkerboard w h) (y * w + x) = (if even (x + y) then 0 else 255)"
    using assms by (intro px_checkerboard) simp_all
  moreover have "px (checkerboard w h) (y * w + x') = (if even (x' + y) then 0 else 255)"
    using assms x by (intro px_checkerboard) simp_all
  moreover have "px (checkerboard w h) (y * w + Suc x) = (if even (Suc x + y) then 0 else 255)"
    using assms by (intro px_checkerboard) simp_all
  moreover have "px (checkerboard w h) (y' * w + x) = (if even (x + y') then 0 else 255)"
    using assms y by (intro px_checkerboard) simp_all
  moreover have "px (checkerboard w h) (Suc y * w + x) = (if even (x + Suc y) then 0 else 255)"
    using assms by (intro px_checkerboard) simp_all
  ultimately show ?thesis
    unfolding laplacian_def e1 e2 e3 e4 using x y by simp
qed

lemma edge_energy_checkerboard:
  "edge_energy (checkerboard w h) w h = 1020 * real ((w - 2) * (h - 2))"
proof -
  have "\<And>y x. y \<in> {1..<h - 1} \<Longrightarrow> x \<in> {1..<w - 1}
          \<Longrightarrow> \<bar>laplacian (checkerboard w h) w y x\<bar> = 1020"
    by (rule laplacian_checkerboard) auto
  then have "edge_energy (checkerboard w h) w h = (\<Sum>y = 1..<h - 1. \<Sum>x = 1..<w - 1. 1020)"
    unfolding edge_energy_def by (intro sum.cong refl) simp
  also have "\<dots> = 1020 * real ((w - 2) * (h - 2))"
    by (simp add: numeral_2_eq_2 mult.commute)
  finally show ?thesis .
qed

lemma length_checkerboard: "length (checkerboard w h) = w * h"
  by (simp add: checkerboard_def)

lemma calculateBlurScore_checkerboard:
  assumes "3 \<le> w" "3 \<le> h"
  shows "calculateBlurScore (checkerboard w h) w h = Num 0"
proof -
  have "real ((w - 2) * (h - 2)) \<noteq> 0" using assms by simp
  then have "1020 * real ((w - 2) * (h - 2)) / real ((w - 2) * (h - 2)) = 1020"
    by simp
  then show ?thesis
    by (simp only: calculateBlurScore_Num [OF assms eq_imp_le [OF length_checkerboard [symmetric]]]
        edge_energy_checkerboard) simp
qed

lemma row_sum:
  "(\<Sum>x<2 * k. if even (x + y) then 0 else (255 :: real)) = 255 * real k"
proof (induction k)
  case 0
  then show ?case by simp
next
  case (Suc k)
  have "(\<Sum>x<2 * Suc k. if even (x + y) then 0 else (255 :: real)) =
        (\<Sum>x<2 * k. if even (x + y) then 0 else 255)
        + (if even (2 * k + y) then 0 else 255) + (if even (Suc (2 * k) + y) then 0 else 255)"
    by simp
  also have "\<dots> = 255 * real k + 255" using Suc.IH by simp
  finally show ?case by (simp add: algebra_simps)
qed

lemma intensities_checkerboard:
  "intensities (checkerboard w h) =
     map (\<lambda>i. if even (i mod w + i div w) then 0 else 255) [0..<w * h]"
  by (simp add: intensities_def checkerboard_def comp_def if_distrib cong: if_cong)

lemma sum_checkerboard:
  "sum_list (intensities (checkerboard (2 * k) h)) = 255 * real k * real h"
proof -
  let ?w = "2 * k"
  let ?g = "\<lambda>i. if even (i mod ?w + i div ?w) then 0 else (255 :: real)"
  have "(\<Sum>i<?w * h. ?g i) = 255 * real k * real h"
  proof (induction h)
    case 0
    then show ?case by simp
  next
    case (Suc h)
    have "{..<?w * Suc h} = {..<?w * h} \<union> {?w * h..<?w + ?w * h}" by auto
    moreover have "{..<?w * h} \<inter> {?w * h..<?w + ?w * h} = {}" by auto
    ultimately have "(\<Sum>i<?w * Suc h. ?g i) =
        (\<Sum>i<?w * h. ?g i) + (\<Sum>i = ?w * h..<?w + ?w * h. ?g i)"
      by (simp only: sum.union_disjoint finite_lessThan finite_atLeastLessThan)
    also have "(\<Sum>i = ?w * h..<?w + ?w * h. ?g i) = (\<Sum>x = 0..<?w. ?g (x + ?w * h))"
      using sum.shift_bounds_nat_ivl [of ?g 0 "?w * h" ?w] by (simp only: add_0)
    also have "\<dots> = (\<Sum>x = 0..<?w. if even (x + h) then 0 else (255 :: real))"
      by (intro sum.cong refl) simp
    also have "\<dots> = 255 * real k"
      using row_sum [where k = k and y = h] by (simp add: atLeast0LessThan)
    finally show ?case using Suc.IH by (simp add: algebra_simps)
  qed
  then show ?thesis
    by (simp add: intensities_checkerboard interv_sum_list_conv_sum_set_nat atLeast0LessThan)
qed

lemma mean_checkerboard:
  assumes "0 < k" "0 < h"
  shows "mean_of (intensities (checkerboard (2 * k) h)) = 255 / 2"
proof -
  have len: "length (intensities (checkerboard (2 * k) h)) = 2 * k * h"
    by (simp add: intensities_def checkerboard_def)
  show ?thesis
    unfolding mean_of_def sum_checkerboard len using assms by simp
qed

lemma population_variance_checkerboard:
  assumes "0 < k" "0 < h"
  shows "population_variance (intensities (checkerboard (2 * k) h)) = (255 / 2) ^ 2"
proof -
  let ?xs = "intensities (checkerboard (2 * k) h)"
  have "\<And>x. x \<in> set ?xs \<Longrightarrow> (x - 255 / 2) ^ 2 = (255 / 2) ^ 2"
    by (auto simp add: intensities_checkerboard power2_eq_square)
  then have "map (\<lambda>x. (x - 255 / 2) ^ 2) ?xs = map (\<lambda>x. (255 / 2) ^ 2) ?xs"
    by (intro map_cong refl)
  then have s: "(\<Sum>x\<leftarrow>?xs. (x - 255 / 2) ^ 2) = real (length ?xs) * (255 / 2) ^ 2"
    by (simp only: sum_list_triv map_replicate_const [symmetric]) 
  have nz: "real (length ?xs) \<noteq> 0" using assms by (simp add: intensities_checkerboard)
  show ?thesis
    unfolding population_variance_def mean_checkerboard [OF assms] s using nz by simp
qed


lemma in_unit_interval_Num: "in_unit_interval (Num r) = (0 \<le> r \<and> r \<le> 1)"
  by (simp add: in_unit_interval_def)

section \<open>The Laplacian estimator\<close>

text \<open>
  C4. For a pixel array of \<open>w * h\<close> pixels with \<open>w\<close> and \<open>h\<close> at least 3,
  \<open>calculateBlurScore\<close> takes the absolute value of
  \<open>4 * center - left - right - top - bottom\<close> at every pixel that is not on the border,
  averages these over the \<open>(w - 2) * (h - 2)\<close> interior pixels, and returns one minus
  that average over 255, clamped to the interval from 0 to 1.
\<close>

theorem C4_laplacian_estimator:
  assumes "3 \<le> w" and "3 \<le> h" and "length pixels = w * h"
  shows "calculateBlurScore pixels w h =
           Num (max 0 (min 1 (1 - (edge_energy pixels w h / real ((w - 2) * (h - 2))) / 255)))"
  using calculateBlurScore_Num [OF assms(1,2)] assms(3) by simp

lemma edge_energy_3x3:
  "edge_energy pixels 3 3 = \<bar>laplacian pixels 3 1 1\<bar>"
  by (simp add: edge_energy_def numeral_2_eq_2 atLeastLessThanSuc)

text \<open>C4, on a 3 by 3 array with one gray pixel in the middle.\<close>

theorem C4_laplacian_estimator_witness:
  "(3 :: nat) \<le> 3 \<and> length [0, 0, 0, 0, 10, 0, 0, 0, 0 :: 8 word] = 3 * 3
   \<and> calculateBlurScore [0, 0, 0, 0, 10, 0, 0, 0, 0] 3 3 = Num (43 / 51)"
  using C4_laplacian_estimator [of 3 3 "[0, 0, 0, 0, 10, 0, 0, 0, 0]"]
  by (simp add: edge_energy_3x3 laplacian_def px_def)

text \<open>
  C10. \<open>calculateBlurScore\<close> divides by the number of interior pixels without a guard.
  When \<open>w\<close> or \<open>h\<close> is at most 2 that number is 0 and the result is \<open>0 / 0\<close>, that is
  \<open>NaN\<close>, whatever the pixels are; when both are at least 3 and the array holds the
  \<open>w * h\<close> pixels, the division is defined and the result is a number between 0 and 1.
\<close>

theorem C10_defined_iff:
  "(w \<le> 2 \<or> h \<le> 2 \<longrightarrow> calculateBlurScore pixels w h = NaN)
   \<and> (3 \<le> w \<and> 3 \<le> h \<and> w * h \<le> length pixels \<longrightarrow>
        Num 0 \<le> calculateBlurScore pixels w h \<and> calculateBlurScore pixels w h \<le> Num 1)"
proof (intro conjI impI)
  assume "w \<le> 2 \<or> h \<le> 2"
  then show "calculateBlurScore pixels w h = NaN" by (rule calculateBlurScore_NaN)
next
  assume a: "3 \<le> w \<and> 3 \<le> h \<and> w * h \<le> length pixels"
  then have "calculateBlurScore pixels w h =
      Num (max 0 (min 1 (1 - edge_energy pixels w h / real ((w - 2) * (h - 2)) / 255)))"
    by (intro calculateBlurScore_Num) simp_all
  then show "Num 0 \<le> calculateBlurScore pixels w h" "calculateBlurScore pixels w h \<le> Num 1"
    by simp_all
qed

text \<open>C10, on a 2 by 2 array and on a 3 by 3 array.\<close>

theorem C10_defined_iff_witness:
  "((2 :: nat) \<le> 2 \<or> (2 :: nat) \<le> 2) \<and> calculateBlurScore [9, 9, 9, 9] 2 2 = NaN
   \<and> (3 :: nat) \<le> 3 \<and> 3 * 3 \<le> length [0, 0, 0, 0, 10, 0, 0, 0, 0 :: 8 word]
   \<and> Num 0 \<le> calculateBlurScore [0, 0, 0, 0, 10, 0, 0, 0, 0] 3 3
   \<and> calculateBlurScore [0, 0, 0, 0, 10, 0, 0, 0, 0] 3 3 \<le> Num 1"
  using C10_defined_iff [of 2 2 "[9, 9, 9, 9]"]
    C10_defined_iff [of 3 3 "[0, 0, 0, 0, 10, 0, 0, 0, 0]"]
  by simp

section \<open>The blur-check path\<close>

lemma variance_fold_Num:
  assumes "data \<noteq> []"
  shows "foldl (\<lambda>sum value. sum + Math_pow (byte_num value - Num (mean_of (intensities data))) 2)
           (Num 0) data / Num (real (length data))
         = Num (population_variance (intensities data))"
proof -
  have len: "length (intensities data) = length data" by (simp add: intensities_def)
  have nz: "real (length data) \<noteq> 0" using assms by simp
  show ?thesis
    unfolding foldl_square_sum population_variance_def len using nz by simp
qed

lemma sqrt_variance_Num:
  "Math_sqrt (Num (population_variance xs)) / Num 255 = Num (sqrt (population_variance xs) / 255)"
  using population_variance_nonneg [of xs] by simp

lemma detectBlur_accepts:
  assumes "md_width (img_metadata img) = Some wd" and "md_height (img_metadata img) = Some ht"
    and "0 < wd" and "0 < ht"
    and "width (minDocumentSize this) \<le> wd" and "height (minDocumentSize this) \<le> ht"
    and "img_data img \<noteq> []"
  shows "detectBlur this (Inr img) =
     Inr \<lparr> isBlurry = Num (population_variance (intensities (img_data img)) / 255\<^sup>2)
                        < blurThreshold this,
           blurScore = Num (population_variance (intensities (img_data img)) / 255\<^sup>2),
           quality =
             \<lparr> q_brightness = Num (mean_of (intensities (img_data img)) / 255),
               q_contrast = Num (sqrt (population_variance (intensities (img_data img))) / 255),
               q_width = wd, q_height = ht,
               q_format = md_format (img_metadata img),
               q_size = md_size (img_metadata img) \<rparr>,
           threshold = blurThreshold this,
           recommendation =
             (if Num (population_variance (intensities (img_data img)) / 255\<^sup>2)
                 < blurThreshold this
              then ''Image is too blurry, please provide a clearer image''
              else ''Image quality is acceptable'') \<rparr>"
proof -
  have chk: "\<not> (wd = 0 \<or> ht = 0 \<or> wd < width (minDocumentSize this)
                \<or> ht < height (minDocumentSize this))"
    using assms(3-6) by simp
  have nv: "calculateVariance (img_data img) / Num (255 * 255) =
      Num (population_variance (intensities (img_data img)) / 255\<^sup>2)"
    by (simp add: calculateVariance_Num [OF assms(7)] power2_eq_square)
  show ?thesis
    unfolding detectBlur_def detectBlur_try_def Let_def
    by (simp only: sum.case assms(1,2) prod.case option.case chk if_False
        mean_Num [OF assms(7)] variance_fold_Num [OF assms(7)] sqrt_variance_Num nv
        number.simps plus_number.simps divide_number.simps)
       simp
qed

lemma detectBlur_rejects:
  assumes "md_width (img_metadata img) = None \<or> md_height (img_metadata img) = None
           \<or> md_width (img_metadata img) = Some 0 \<or> md_height (img_metadata img) = Some 0
           \<or> (\<exists>wd. md_width (img_metadata img) = Some wd \<and> wd < width (minDocumentSize this))
           \<or> (\<exists>ht. md_height (img_metadata img) = Some ht \<and> ht < height (minDocumentSize this))"
  shows "detectBlur this (Inr img) =
           Inl (Error (''Error analyzing image: '' @ resolution_message (minDocumentSize this)))"
  using assms
  by (auto simp add: detectBlur_def detectBlur_try_def split: option.splits)

text \<open>
  C5. On the blur-check path, for a non-empty pixel array of an image that passes the
  check of the dimensions, \<open>detectBlur\<close> returns a result whose \<open>blurScore\<close> is the
  population variance of the intensities divided by \<open>255\<^sup>2\<close>, and whose \<open>isBlurry\<close> holds
  exactly when that score is strictly below the \<open>blurThreshold\<close> of the detector.
\<close>

theorem C5_global_variance:
  assumes "img_data img \<noteq> []"
    and "md_width (img_metadata img) = Some wd" and "md_height (img_metadata img) = Some ht"
    and "0 < wd" and "0 < ht"
    and "width (minDocumentSize this) \<le> wd" and "height (minDocumentSize this) \<le> ht"
  shows "\<exists>r. detectBlur this (Inr img) = Inr r
           \<and> blurScore r = Num (population_variance (intensities (img_data img)) / 255\<^sup>2)
           \<and> (isBlurry r \<longleftrightarrow> blurScore r < blurThreshold this)
           \<and> (\<forall>t. blurThreshold this = Num t \<longrightarrow>
                 (isBlurry r \<longleftrightarrow>
                    population_variance (intensities (img_data img)) / 255\<^sup>2 < t))"
  by (simp add: detectBlur_accepts [OF assms(2-7) assms(1)])

lemma population_variance_0_255: "population_variance (intensities [0, 255]) = (255 / 2)\<^sup>2"
  by (simp add: population_variance_def mean_of_def intensities_def power2_eq_square)

text \<open>C5, on the two pixels 0 and 255: the score is a quarter, above the threshold 0.15.\<close>

theorem C5_global_variance_witness:
  "[0, 255 :: 8 word] \<noteq> [] \<and> (0 :: nat) < 2 \<and> (0 :: nat) < 1
   \<and> width (minDocumentSize small_detector) \<le> 2
   \<and> height (minDocumentSize small_detector) \<le> 1
   \<and> (\<exists>r. detectBlur small_detector (Inr (image_of 2 1 [0, 255])) = Inr r
          \<and> blurScore r = Num (1 / 4) \<and> \<not> isBlurry r)"
  using C5_global_variance [of "image_of 2 1 [0, 255]" 2 1 small_detector]
  by (auto simp add: image_of_def small_detector_def new_DocumentBlurDetector_def
      population_variance_0_255 power2_eq_square)

section \<open>The scores lie between 0 and 1\<close>

lemma sum_list_bounds:
  fixes xs :: "real list"
  assumes "\<forall>x\<in>set xs. 0 \<le> x \<and> x \<le> M"
  shows "0 \<le> sum_list xs \<and> sum_list xs \<le> M * real (length xs)"
  using assms by (induction xs) (auto simp add: algebra_simps)

lemma mean_of_bounds:
  assumes "xs \<noteq> []" and "\<forall>x\<in>set xs. 0 \<le> x \<and> x \<le> M"
  shows "0 \<le> mean_of xs \<and> mean_of xs \<le> M"
proof -
  have n: "0 < real (length xs)" using assms(1) by simp
  from sum_list_bounds [OF assms(2)] n show ?thesis
    by (simp add: mean_of_def divide_le_eq)
qed

lemma brightness_bounds:
  assumes "data \<noteq> []"
  shows "0 \<le> mean_of (intensities data) / 255 \<and> mean_of (intensities data) / 255 \<le> 1"
proof -
  have "intensities data \<noteq> []" using assms by (simp add: intensities_def)
  from mean_of_bounds [OF this intensities_range] show ?thesis by simp
qed

lemma variance_bounds:
  assumes "data \<noteq> []"
  shows "0 \<le> population_variance (intensities data)"
    and "population_variance (intensities data) \<le> (255 / 2)\<^sup>2"
proof -
  have ne: "intensities data \<noteq> []" using assms by (simp add: intensities_def)
  show "0 \<le> population_variance (intensities data)" by (rule population_variance_nonneg)
  from population_variance_le [OF ne intensities_range]
  show "population_variance (intensities data) \<le> (255 / 2)\<^sup>2"
    by (simp add: power2_eq_square)
qed

lemma normalized_variance_bounds:
  assumes "data \<noteq> []"
  shows "0 \<le> population_variance (intensities data) / 255\<^sup>2
         \<and> population_variance (intensities data) / 255\<^sup>2 \<le> 1 / 4"
  using variance_bounds [OF assms] by (simp add: power2_eq_square)

lemma contrast_bounds:
  assumes "data \<noteq> []"
  shows "0 \<le> sqrt (population_variance (intensities data)) / 255
         \<and> sqrt (population_variance (intensities data)) / 255 \<le> 1 / 2"
proof -
  have "sqrt (population_variance (intensities data)) \<le> sqrt ((255 / 2)\<^sup>2)"
    using variance_bounds(2) [OF assms] by (rule real_sqrt_le_mono)
  then have "sqrt (population_variance (intensities data)) \<le> 255 / 2" by simp
  moreover have "0 \<le> sqrt (population_variance (intensities data))"
    using variance_bounds(1) [OF assms] by simp
  ultimately show ?thesis by simp
qed

lemma analyzeImageQuality_Num:
  assumes "img_data img \<noteq> []"
  shows "analyzeImageQuality img =
     \<lparr> qm_contrast = Num (sqrt (population_variance (intensities (img_data img))) / 255),
       qm_blurScore = calculateBlurScore (img_data img) (info_width img) (info_height img),
       qm_brightness = Num (mean_of (intensities (img_data img)) / 255),
       qm_resolution = info_width img * info_height img \<rparr>"
  unfolding analyzeImageQuality_def Let_def
  by (simp only: mean_Num [OF assms] variance_fold_Num [OF assms] sqrt_variance_Num) simp

text \<open>
  C6. For a non-empty pixel array (whose intensities are bytes, hence between 0 and 255),
  the brightness, the contrast and the blur score are numbers between 0 and 1: on the
  readability path, where the Laplacian estimator needs \<open>w\<close> and \<open>h\<close> at least 3 and the
  \<open>w * h\<close> pixels, and on the blur-check path, where the image has to pass the check of
  the dimensions.
\<close>

theorem C6_scores_in_unit_interval:
  "(img_data img \<noteq> [] \<and> 3 \<le> info_width img \<and> 3 \<le> info_height img
      \<and> length (img_data img) = info_width img * info_height img \<longrightarrow>
      in_unit_interval (qm_brightness (analyzeImageQuality img))
      \<and> in_unit_interval (qm_contrast (analyzeImageQuality img))
      \<and> in_unit_interval (qm_blurScore (analyzeImageQuality img)))
   \<and> (img_data img \<noteq> [] \<and> md_width (img_metadata img) = Some wd
      \<and> md_height (img_metadata img) = Some ht \<and> 0 < wd \<and> 0 < ht
      \<and> width (minDocumentSize this) \<le> wd \<and> height (minDocumentSize this) \<le> ht \<longrightarrow>
      (\<exists>r. detectBlur this (Inr img) = Inr r
         \<and> in_unit_interval (q_brightness (quality r))
         \<and> in_unit_interval (q_contrast (quality r))
         \<and> in_unit_interval (blurScore r)))"
proof (intro conjI impI)
  assume a: "img_data img \<noteq> [] \<and> 3 \<le> info_width img \<and> 3 \<le> info_height img
      \<and> length (img_data img) = info_width img * info_height img"
  then have ne: "img_data img \<noteq> []" by simp
  show "in_unit_interval (qm_brightness (analyzeImageQuality img))"
    using brightness_bounds [OF ne]
    by (simp add: analyzeImageQuality_Num [OF ne] in_unit_interval_Num)
  show "in_unit_interval (qm_contrast (analyzeImageQuality img))"
    using contrast_bounds [OF ne]
    by (simp add: analyzeImageQuality_Num [OF ne] in_unit_interval_Num)
  have "calculateBlurScore (img_data img) (info_width img) (info_height img) =
      Num (max 0 (min 1 (1 - edge_energy (img_data img) (info_width img) (info_height img)
              / real ((info_width img - 2) * (info_height img - 2)) / 255)))"
    using a by (intro calculateBlurScore_Num) simp_all
  then show "in_unit_interval (qm_blurScore (analyzeImageQuality img))"
    by (simp add: analyzeImageQuality_Num [OF ne] in_unit_interval_Num)
next
  assume a: "img_data img \<noteq> [] \<and> md_width (img_metadata img) = Some wd
      \<and> md_height (img_metadata img) = Some ht \<and> 0 < wd \<and> 0 < ht
      \<and> width (minDocumentSize this) \<le> wd \<and> height (minDocumentSize this) \<le> ht"
  then have ne: "img_data img \<noteq> []"
    and d: "md_width (img_metadata img) = Some wd" "md_height (img_metadata img) = Some ht"
      "0 < wd" "0 < ht" "width (minDocumentSize this) \<le> wd"
      "height (minDocumentSize this) \<le> ht"
    by simp_all
  show "\<exists>r. detectBlur this (Inr img) = Inr r
         \<and> in_unit_interval (q_brightness (quality r))
         \<and> in_unit_interval (q_contrast (quality r))
         \<and> in_unit_interval (blurScore r)"
    using brightness_bounds [OF ne] contrast_bounds [OF ne] normalized_variance_bounds [OF ne]
    by (simp add: detectBlur_accepts [OF d ne] in_unit_interval_Num)
qed

text \<open>C6, on a 3 by 3 image with one gray pixel in the middle.\<close>

theorem C6_scores_in_unit_interval_witness:
  "[0, 0, 0, 0, 10, 0, 0, 0, 0 :: 8 word] \<noteq> [] \<and> (3 :: nat) \<le> 3
   \<and> length [0, 0, 0, 0, 10, 0, 0, 0, 0 :: 8 word] = 3 * 3
   \<and> width (minDocumentSize small_detector) \<le> 3
   \<and> height (minDocumentSize small_detector) \<le> 3
   \<and> in_unit_interval
        (qm_brightness (analyzeImageQuality (image_of 3 3 [0, 0, 0, 0, 10, 0, 0, 0, 0])))
   \<and> in_unit_interval
        (qm_contrast (analyzeImageQuality (image_of 3 3 [0, 0, 0, 0, 10, 0, 0, 0, 0])))
   \<and> in_unit_interval
        (qm_blurScore (analyzeImageQuality (image_of 3 3 [0, 0, 0, 0, 10, 0, 0, 0, 0])))
   \<and> (\<exists>r. detectBlur small_detector (Inr (image_of 3 3 [0, 0, 0, 0, 10, 0, 0, 0, 0])) = Inr r
         \<and> in_unit_interval (q_brightness (quality r))
         \<and> in_unit_interval (q_contrast (quality r))
         \<and> in_unit_interval (blurScore r))"
  using C6_scores_in_unit_interval
    [of "image_of 3 3 [0, 0, 0, 0, 10, 0, 0, 0, 0]" 3 3 small_detector]
  by (simp add: image_of_def small_detector_def new_DocumentBlurDetector_def)

section \<open>The checkerboard on both paths\<close>

lemma even_checkerboard:
  assumes "even w" and "0 < w" and "0 < h"
  shows "mean_of (intensities (checkerboard w h)) = 255 / 2"
    and "population_variance (intensities (checkerboard w h)) = (255 / 2)\<^sup>2"
proof -
  from assms(1) obtain k where k: "w = 2 * k" by (auto elim: evenE)
  with assms(2) have "0 < k" by simp
  then show "mean_of (intensities (checkerboard w h)) = 255 / 2"
    and "population_variance (intensities (checkerboard w h)) = (255 / 2)\<^sup>2"
    unfolding k using assms(3)
    by (simp_all only: mean_checkerboard population_variance_checkerboard)
qed

lemma checkerboard_nonempty: "0 < w \<Longrightarrow> 0 < h \<Longrightarrow> checkerboard w h \<noteq> []"
  by (simp add: checkerboard_def)

lemma detectBlur_checkerboard:
  assumes "even w" and "0 < w" and "0 < h"
    and "width (minDocumentSize this) \<le> w" and "height (minDocumentSize this) \<le> h"
  shows "\<exists>r. detectBlur this (Inr (image_of w h (checkerboard w h))) = Inr r
           \<and> blurScore r = Num (1 / 4) \<and> (isBlurry r \<longleftrightarrow> Num (1 / 4) < blurThreshold this)"
proof -
  let ?img = "image_of w h (checkerboard w h)"
  have d: "md_width (img_metadata ?img) = Some w" "md_height (img_metadata ?img) = Some h"
    "img_data ?img = checkerboard w h"
    by (simp_all add: image_of_def)
  have ne: "img_data ?img \<noteq> []" using checkerboard_nonempty [OF assms(2,3)] d(3) by simp
  have nv: "population_variance (intensities (img_data ?img)) / 255\<^sup>2 = 1 / 4"
    unfolding d(3) even_checkerboard(2) [OF assms(1-3)] by (simp add: power2_eq_square)
  show ?thesis
    unfolding detectBlur_accepts [OF d(1,2) assms(2,3) assms(4,5) ne] nv by simp
qed

lemma analyzeImageQuality_checkerboard:
  assumes "even w" and "3 \<le> w" and "3 \<le> h"
  shows "analyzeImageQuality (image_of w h (checkerboard w h)) =
           \<lparr> qm_contrast = Num (1 / 2), qm_blurScore = Num 0, qm_brightness = Num (1 / 2),
             qm_resolution = w * h \<rparr>"
proof -
  let ?img = "image_of w h (checkerboard w h)"
  have p: "0 < w" "0 < h" using assms(2,3) by simp_all
  have d: "img_data ?img = checkerboard w h" "info_width ?img = w" "info_height ?img = h"
    by (simp_all add: image_of_def)
  have ne: "img_data ?img \<noteq> []" using checkerboard_nonempty [OF p] d(1) by simp
  show ?thesis
    unfolding analyzeImageQuality_Num [OF ne] d even_checkerboard [OF assms(1) p]
      calculateBlurScore_checkerboard [OF assms(2,3)]
    by simp
qed

lemma detectBlur_checkerboard_le:
  assumes "0 < w" and "0 < h"
    and "width (minDocumentSize this) \<le> w" and "height (minDocumentSize this) \<le> h"
  shows "\<exists>r. detectBlur this (Inr (image_of w h (checkerboard w h))) = Inr r
           \<and> Num 0 \<le> blurScore r \<and> blurScore r \<le> Num (1 / 4)"
proof -
  let ?img = "image_of w h (checkerboard w h)"
  have d: "md_width (img_metadata ?img) = Some w" "md_height (img_metadata ?img) = Some h"
    "img_data ?img = checkerboard w h"
    by (simp_all add: image_of_def)
  have ne: "img_data ?img \<noteq> []" using checkerboard_nonempty [OF assms(1,2)] d(3) by simp
  show ?thesis
    using normalized_variance_bounds [OF ne]
    by (simp add: detectBlur_accepts [OF d(1,2) assms ne])
qed

lemma laplacian_path_checkerboard:
  assumes "3 \<le> w" and "3 \<le> h"
  shows "qm_blurScore (analyzeImageQuality (image_of w h (checkerboard w h))) = Num 0"
proof -
  let ?img = "image_of w h (checkerboard w h)"
  have p: "0 < w" "0 < h" using assms by simp_all
  have d: "img_data ?img = checkerboard w h" "info_width ?img = w" "info_height ?img = h"
    by (simp_all add: image_of_def)
  have ne: "img_data ?img \<noteq> []" using checkerboard_nonempty [OF p] d(1) by simp
  show ?thesis
    unfolding analyzeImageQuality_Num [OF ne] d calculateBlurScore_checkerboard [OF assms]
    by simp
qed

text \<open>
  C7, as stated, fails for the global-variance estimator: on the 400 by 400 checkerboard
  the blur-check path returns the blur score one quarter, which is not even one half.
  No pixel array gives more, by \<open>normalized_variance_bounds\<close>.
\<close>

theorem C7_global_variance_counterexample:
  "\<not> isl (detectBlur route_detector (Inr (image_of 400 400 (checkerboard 400 400))))
   \<and> blurScore (projr (detectBlur route_detector (Inr (image_of 400 400 (checkerboard 400 400)))))
       = Num (1 / 4)
   \<and> \<not> Num (1 / 2)
        \<le> blurScore (projr (detectBlur route_detector
                                (Inr (image_of 400 400 (checkerboard 400 400)))))"
proof -
  have m: "width (minDocumentSize route_detector) \<le> 400"
    "height (minDocumentSize route_detector) \<le> 400"
    by (simp_all add: route_detector_def new_DocumentBlurDetector_def)
  from detectBlur_checkerboard [OF _ _ _ m] obtain r where
    "detectBlur route_detector (Inr (image_of 400 400 (checkerboard 400 400))) = Inr r"
    "blurScore r = Num (1 / 4)"
    by auto
  then show ?thesis by simp
qed

text \<open>
  C7, amended. On a checkerboard with width and height at least 3 the Laplacian
  estimator gives the blur score 0. The global-variance estimator of the blur-check
  path gives a score between 0 and one quarter on every checkerboard that passes the
  check of the dimensions, and exactly one quarter when the width is even; the image is
  then flagged blurry exactly when the threshold is above one quarter.
\<close>

theorem C7_checkerboard_scores:
  "(3 \<le> w \<and> 3 \<le> h \<longrightarrow>
      calculateBlurScore (checkerboard w h) w h = Num 0
      \<and> qm_blurScore (analyzeImageQuality (image_of w h (checkerboard w h))) = Num 0)
   \<and> (0 < w \<and> 0 < h \<and> width (minDocumentSize this) \<le> w
        \<and> height (minDocumentSize this) \<le> h \<longrightarrow>
      (\<exists>r. detectBlur this (Inr (image_of w h (checkerboard w h))) = Inr r
         \<and> Num 0 \<le> blurScore r \<and> blurScore r \<le> Num (1 / 4)
         \<and> (even w \<longrightarrow> blurScore r = Num (1 / 4)
                        \<and> (isBlurry r \<longleftrightarrow> Num (1 / 4) < blurThreshold this))))"
proof (intro conjI impI)
  assume "3 \<le> w \<and> 3 \<le> h"
  then have a: "3 \<le> w" "3 \<le> h" by simp_all
  show "calculateBlurScore (checkerboard w h) w h = Num 0"
    using a by (rule calculateBlurScore_checkerboard)
  show "qm_blurScore (analyzeImageQuality (image_of w h (checkerboard w h))) = Num 0"
    using a by (rule laplacian_path_checkerboard)
next
  assume "0 < w \<and> 0 < h \<and> width (minDocumentSize this) \<le> w
        \<and> height (minDocumentSize this) \<le> h"
  then have a: "0 < w" "0 < h" "width (minDocumentSize this) \<le> w"
    "height (minDocumentSize this) \<le> h"
    by simp_all
  from detectBlur_checkerboard_le [OF a] obtain r where
    r: "detectBlur this (Inr (image_of w h (checkerboard w h))) = Inr r"
      "Num 0 \<le> blurScore r" "blurScore r \<le> Num (1 / 4)"
    by blast
  have "even w \<longrightarrow> blurScore r = Num (1 / 4)
                    \<and> (isBlurry r \<longleftrightarrow> Num (1 / 4) < blurThreshold this)"
  proof
    assume "even w"
    from detectBlur_checkerboard [OF this a] r(1)
    show "blurScore r = Num (1 / 4) \<and> (isBlurry r \<longleftrightarrow> Num (1 / 4) < blurThreshold this)"
      by simp
  qed
  with r show "\<exists>r. detectBlur this (Inr (image_of w h (checkerboard w h))) = Inr r
         \<and> Num 0 \<le> blurScore r \<and> blurScore r \<le> Num (1 / 4)
         \<and> (even w \<longrightarrow> blurScore r = Num (1 / 4)
                        \<and> (isBlurry r \<longleftrightarrow> Num (1 / 4) < blurThreshold this))"
    by blast
qed

text \<open>C7, on the 400 by 400 checkerboard with the detector of the route handler.\<close>

theorem C7_checkerboard_scores_witness:
  "(3 :: nat) \<le> 400 \<and> (0 :: nat) < 400 \<and> even (400 :: nat)
   \<and> width (minDocumentSize route_detector) \<le> 400
   \<and> height (minDocumentSize route_detector) \<le> 400
   \<and> calculateBlurScore (checkerboard 400 400) 400 400 = Num 0
   \<and> (\<exists>r. detectBlur route_detector (Inr (image_of 400 400 (checkerboard 400 400))) = Inr r
         \<and> blurScore r = Num (1 / 4) \<and> \<not> isBlurry r)"
  using C7_checkerboard_scores [of 400 400 route_detector]
  by (auto simp add: route_detector_def new_DocumentBlurDetector_def)

section \<open>The readability path\<close>

lemma checkReadability_returns:
  "checkReadability this (Inr img) (Inr ocrResult) (Inr confidenceScore) =
     Inr \<lparr> isReadable =
             Num 70 \<le> calculateReadabilityScore confidenceScore
                         (qm_blurScore (analyzeImageQuality img))
                         (qm_contrast (analyzeImageQuality img))
                         (Num (real (length (words_of ocrResult)))),
           readabilityScore =
             calculateReadabilityScore confidenceScore
               (qm_blurScore (analyzeImageQuality img))
               (qm_contrast (analyzeImageQuality img))
               (Num (real (length (words_of ocrResult)))),
           r_details =
             \<lparr> d_wordCount = length (words_of ocrResult),
               d_confidenceScore = confidenceScore,
               d_imageQuality = analyzeImageQuality img,
               d_metadata =
                 \<lparr> rm_width = md_width (img_metadata img),
                   rm_height = md_height (img_metadata img),
                   rm_format = md_format (img_metadata img) \<rparr> \<rparr>,
           r_text = ocrResult,
           suggestions =
             generateSuggestions this
               (calculateReadabilityScore confidenceScore
                  (qm_blurScore (analyzeImageQuality img))
                  (qm_contrast (analyzeImageQuality img))
                  (Num (real (length (words_of ocrResult)))))
               (analyzeImageQuality img) confidenceScore \<rparr>"
  by (simp add: checkReadability_def checkReadability_try_def Let_def)

text \<open>
  C8. For the 400 by 400 checkerboard, a recognition confidence of 90 and a recognised
  text of 50 words, \<open>checkReadability\<close> returns a result whose blur score is 0 and whose
  contrast is one half, so that the readability score is
  \<open>0.4 * 90 + 0.3 * 100 + 0.2 * 50 + 0.1 * 100 = 86\<close>, at least 70, and \<open>isReadable\<close> is
  true.
\<close>

theorem C8_checkerboard_readable:
  assumes "length (words_of ocrResult) = 50"
  shows "\<exists>r. checkReadability this (Inr (image_of 400 400 (checkerboard 400 400)))
               (Inr ocrResult) (Inr (Num 90)) = Inr r
           \<and> qm_blurScore (d_imageQuality (r_details r)) = Num 0
           \<and> qm_contrast (d_imageQuality (r_details r)) = Num (1 / 2)
           \<and> readabilityScore r = Num 86
           \<and> Num 70 \<le> readabilityScore r
           \<and> isReadable r"
proof -
  have q: "analyzeImageQuality (image_of 400 400 (checkerboard 400 400)) =
      \<lparr> qm_contrast = Num (1 / 2), qm_blurScore = Num 0, qm_brightness = Num (1 / 2),
        qm_resolution = 400 * 400 \<rparr>"
    by (rule analyzeImageQuality_checkerboard) simp_all
  show ?thesis
    unfolding checkReadability_returns q assms
    by (simp add: calculateReadabilityScore_Num)
qed

text \<open>C8, with a text of fifty words and the checker of the route handler.\<close>

theorem C8_checkerboard_readable_witness:
  "length (words_of (concat (replicate 50 ''word ''))) = 50
   \<and> (\<exists>r. checkReadability route_checker (Inr (image_of 400 400 (checkerboard 400 400)))
               (Inr (concat (replicate 50 ''word ''))) (Inr (Num 90)) = Inr r
           \<and> readabilityScore r = Num 86 \<and> isReadable r)"
proof -
  have h: "length (words_of (concat (replicate 50 ''word ''))) = 50" by code_simp
  from C8_checkerboard_readable [OF h, of route_checker] h show ?thesis by blast
qed

section \<open>The check of the resolution\<close>

text \<open>
  C2, as stated, fails on the readability path: for a 200 by 200 image, which the
  detector of the blur-check route rejects, \<open>checkReadability\<close> returns a result.
\<close>

theorem C2_readability_counterexample:
  "isl (detectBlur route_detector (Inr (image_of 200 200 (uniform 200 200 128))))
   \<and> \<not> isl (checkReadability route_checker (Inr (image_of 200 200 (uniform 200 200 128)))
               (Inr ''Hello world'') (Inr (Num 90)))"
proof -
  have "detectBlur route_detector (Inr (image_of 200 200 (uniform 200 200 128))) =
      Inl (Error (''Error analyzing image: ''
                  @ resolution_message (minDocumentSize route_detector)))"
    by (rule detectBlur_rejects)
       (simp add: image_of_def route_detector_def new_DocumentBlurDetector_def)
  then show ?thesis by (simp add: checkReadability_returns)
qed

text \<open>
  C2, amended. For every image whose width or height is below the minimum document size
  of the detector, \<open>detectBlur\<close> raises an error whose message names that minimum as
  \<open>width x height\<close>; the message does not depend on the pixels, the check coming before
  any scoring. The readability checker has no minimum size: \<open>checkReadability\<close> returns
  a result for an image of any size, whenever its collaborators return.
\<close>

theorem C2_resolution_check:
  "(md_width (img_metadata img) = Some wd \<and> md_height (img_metadata img) = Some ht
      \<and> (wd < width (minDocumentSize this) \<or> ht < height (minDocumentSize this)) \<longrightarrow>
      detectBlur this (Inr img) =
        Inl (Error (''Error analyzing image: Image resolution too low. Minimum required: ''
                    @ string_of_nat (width (minDocumentSize this)) @ ''x''
                    @ string_of_nat (height (minDocumentSize this)))))
   \<and> \<not> isl (checkReadability checker (Inr img) (Inr ocrResult) (Inr confidenceScore))"
proof (intro conjI impI)
  assume "md_width (img_metadata img) = Some wd \<and> md_height (img_metadata img) = Some ht
      \<and> (wd < width (minDocumentSize this) \<or> ht < height (minDocumentSize this))"
  then have "detectBlur this (Inr img) =
      Inl (Error (''Error analyzing image: '' @ resolution_message (minDocumentSize this)))"
    by (intro detectBlur_rejects) auto
  then show "detectBlur this (Inr img) =
        Inl (Error (''Error analyzing image: Image resolution too low. Minimum required: ''
                    @ string_of_nat (width (minDocumentSize this)) @ ''x''
                    @ string_of_nat (height (minDocumentSize this))))"
    by (simp add: resolution_message_def)
next
  show "\<not> isl (checkReadability checker (Inr img) (Inr ocrResult) (Inr confidenceScore))"
    by (simp add: checkReadability_returns)
qed

lemma string_of_nat_400: "string_of_nat 400 = ''400''"
  by (simp add: string_of_nat.simps digit_char_def)

text \<open>C2, on a 200 by 200 image with the detector and the checker of the route handlers.\<close>

theorem C2_resolution_check_witness:
  "md_width (img_metadata (image_of 200 200 (uniform 200 200 128))) = Some 200
   \<and> md_height (img_metadata (image_of 200 200 (uniform 200 200 128))) = Some 200
   \<and> 200 < width (minDocumentSize route_detector)
   \<and> detectBlur route_detector (Inr (image_of 200 200 (uniform 200 200 128))) =
       Inl (Error ''Error analyzing image: Image resolution too low. Minimum required: 400x400'')
   \<and> \<not> isl (checkReadability route_checker (Inr (image_of 200 200 (uniform 200 200 128)))
               (Inr ''Hello world'') (Inr (Num 90)))"
  using C2_resolution_check [of "image_of 200 200 (uniform 200 200 128)" 200 200
      route_detector route_checker "''Hello world''" "Num 90"]
  by (simp add: image_of_def route_detector_def new_DocumentBlurDetector_def
      string_of_nat_400)

end
